theory Spec2Isabelle
  imports Complex_Main "HOL-Library.Word" "HOL-Library.Log_Nat"
begin

section \<open>go-profile: the sampler, its counters and its aggregates\<close>

text \<open>
  A shallow embedding of \<^verbatim>\<open>go-profile.go\<close>. Go's \<^verbatim>\<open>uint64\<close> is a 64-bit word
  (arithmetic wraps), a Go string is its list of bytes, an \<^verbatim>\<open>error\<close> return is the
  left summand of a sum and a run-time panic is a constructor of its own. What the
  operating system hands to the program (the content of \<^verbatim>\<open>/proc/stat\<close> and
  \<^verbatim>\<open>/proc/meminfo\<close>, the devices reported by nvidia-smi, the exit status of the child)
  is an argument of the function that reads it.
\<close>

subsection \<open>Errors and panics\<close>

type_synonym u64 = "64 word"

datatype error = ErrRead | ErrSyntax | ErrRange

datatype panic = IndexOutOfRange | IntegerDivideByZero

datatype 'a result = Ok 'a | Err error | Panic panic

subsection \<open>The library functions the program calls\<close>

text \<open>
  \<^verbatim>\<open>strings.Split(s, sep)\<close> for a separator of one byte, which is what both calls of
  the program pass (a newline, a blank): the pieces between the separators, always at
  least one piece.
\<close>

fun Split :: "string \<Rightarrow> char \<Rightarrow> string list" where
  "Split [] sep = [[]]"
| "Split (c # cs) sep =
     (if c = sep then [] # Split cs sep
      else (case Split cs sep of
              [] \<Rightarrow> [[c]]
            | w # ws \<Rightarrow> (c # w) # ws))"

text \<open>
  \<^verbatim>\<open>unicode.IsSpace\<close> on the UTF-8 bytes at the front of a string: the number of bytes
  of the white-space rune found there, 0 when the string does not start with one.
  The runes are U+0009..U+000D, U+0020, U+0085, U+00A0, U+1680, U+2000..U+200A, U+2028,
  U+2029, U+202F, U+205F and U+3000.
\<close>

fun spaceLen :: "string \<Rightarrow> nat" where
  "spaceLen [] = 0"
| "spaceLen (c # cs) =
     (let b = of_char c :: nat in
      if (9 \<le> b \<and> b \<le> 13) \<or> b = 32 then 1
      else if b = 194 then
        (case cs of
           d # _ \<Rightarrow> if of_char d = (133::nat) \<or> of_char d = (160::nat) then 2 else 0
         | [] \<Rightarrow> 0)
      else if b = 225 then
        (case cs of
           d # e # _ \<Rightarrow> if of_char d = (154::nat) \<and> of_char e = (128::nat) then 3 else 0
         | _ \<Rightarrow> 0)
      else if b = 226 then
        (case cs of
           d # e # _ \<Rightarrow>
             (let x = of_char d :: nat; y = of_char e :: nat in
              if x = 128 \<and> ((128 \<le> y \<and> y \<le> 138) \<or> y = 168 \<or> y = 169 \<or> y = 175) then 3
              else if x = 129 \<and> y = 159 then 3
              else 0)
         | _ \<Rightarrow> 0)
      else if b = 227 then
        (case cs of
           d # e # _ \<Rightarrow> if of_char d = (128::nat) \<and> of_char e = (128::nat) then 3 else 0
         | _ \<Rightarrow> 0)
      else 0)"

text \<open>
  \<^verbatim>\<open>strings.Fields\<close>: the maximal runs of bytes between white space. The first
  argument counts the bytes of a white-space rune still to be skipped, the second is
  the field being read, in reverse.
\<close>

fun fieldsFrom :: "nat \<Rightarrow> string \<Rightarrow> string \<Rightarrow> string list" where
  "fieldsFrom k cur [] = (if cur = [] then [] else [rev cur])"
| "fieldsFrom k cur (c # cs) =
     (if 0 < k then fieldsFrom (k - 1) cur cs
      else if 0 < spaceLen (c # cs) then
        (if cur = [] then fieldsFrom (spaceLen (c # cs) - 1) [] cs
         else rev cur # fieldsFrom (spaceLen (c # cs) - 1) [] cs)
      else fieldsFrom 0 (c # cur) cs)"

definition Fields :: "string \<Rightarrow> string list" where
  "Fields s = fieldsFrom 0 [] s"

text \<open>
  \<^verbatim>\<open>strconv.ParseUint(s, 10, 64)\<close>: decimal digits only, no sign, no underscore. The
  loop of the library reads the bytes in order and returns at the first byte that is
  not a digit (a syntax error) or at the first digit that takes the value past
  \<open>2^64 - 1\<close> (a range error).
\<close>

definition isDigit :: "char \<Rightarrow> bool" where
  "isDigit c = (48 \<le> (of_char c :: nat) \<and> (of_char c :: nat) \<le> 57)"

definition maxUint64 :: nat where
  "maxUint64 = 18446744073709551615"

fun parseDigits :: "nat \<Rightarrow> string \<Rightarrow> error + nat" where
  "parseDigits n [] = Inr n"
| "parseDigits n (c # cs) =
     (if \<not> isDigit c then Inl ErrSyntax
      else if maxUint64 div 10 + 1 \<le> n then Inl ErrRange
      else if maxUint64 < n * 10 + (of_char c - 48) then Inl ErrRange
      else parseDigits (n * 10 + (of_char c - 48)) cs)"

definition ParseUint :: "string \<Rightarrow> error + u64" where
  "ParseUint s =
     (if s = [] then Inl ErrSyntax
      else (case parseDigits 0 s of
              Inl err \<Rightarrow> Inl err
            | Inr n \<Rightarrow> Inr (of_nat n)))"

subsection \<open>Memory counters\<close>

record MemoryInfo =
  Total :: u64
  Free :: u64
  Available :: u64
  Buffers :: u64
  Cached :: u64

definition noMemoryInfo :: MemoryInfo where
  "noMemoryInfo = \<lparr>Total = 0, Free = 0, Available = 0, Buffers = 0, Cached = 0\<rparr>"

text \<open>The \<^verbatim>\<open>switch key\<close> of \<^verbatim>\<open>getMemoryInfo\<close>.\<close>

definition switchKey :: "string \<Rightarrow> u64 \<Rightarrow> MemoryInfo \<Rightarrow> MemoryInfo" where
  "switchKey key v memInfo =
     (if key = ''MemTotal:'' then memInfo\<lparr>Total := v * 1024\<rparr>
      else if key = ''MemFree:'' then memInfo\<lparr>Free := v * 1024\<rparr>
      else if key = ''MemAvailable:'' then memInfo\<lparr>Available := v * 1024\<rparr>
      else if key = ''Buffers:'' then memInfo\<lparr>Buffers := v * 1024\<rparr>
      else if key = ''Cached:'' then memInfo\<lparr>Cached := v * 1024\<rparr>
      else memInfo)"

text \<open>The loop over the lines: the value is parsed before the label is looked at.\<close>

fun memLines :: "MemoryInfo \<Rightarrow> string list \<Rightarrow> error + MemoryInfo" where
  "memLines memInfo [] = Inr memInfo"
| "memLines memInfo (line # lines) =
     (if length (Fields line) < 2 then memLines memInfo lines
      else (case ParseUint (Fields line ! 1) of
              Inl err \<Rightarrow> Inl err
            | Inr v \<Rightarrow> memLines (switchKey (Fields line ! 0) v memInfo) lines))"

text \<open>The argument is what \<^verbatim>\<open>os.ReadFile("/proc/meminfo")\<close> returned.\<close>

definition getMemoryInfo :: "error + string \<Rightarrow> error + MemoryInfo" where
  "getMemoryInfo file =
     (case file of
        Inl err \<Rightarrow> Inl err
      | Inr data \<Rightarrow> memLines noMemoryInfo (Split data (CHR 0x0A)))"

subsection \<open>float64\<close>

text \<open>
  A \<^verbatim>\<open>float64\<close> is not-a-number, an infinity or a finite value, kept as the rational it
  denotes. Every operation computes the exact result and rounds it to the nearest
  binary64 number, ties to the even significand, as IEEE 754 does: 53 significant
  bits, the smallest exponent of a unit in the last place \<open>-1074\<close> (the subnormal
  numbers), overflow to an infinity from \<open>2^1024\<close> on. The sign of a zero is not kept:
  every divisor of the program is the conversion of an unsigned integer, so a zero
  divisor is always the positive zero. Each operation is rounded on its own (no fused
  multiply-add).
\<close>

datatype f64 = NaN | NInf | Fin rat | PInf

definition pow2 :: "int \<Rightarrow> rat" where
  "pow2 e = (if 0 \<le> e then 2 ^ nat e else 1 / 2 ^ nat (- e))"

text \<open>The exponent of the binade of a positive rational: \<open>2^e \<le> x < 2^(e+1)\<close>.\<close>

definition ilog2 :: "rat \<Rightarrow> int" where
  "ilog2 x = (if 1 \<le> x then bitlen \<lfloor>x\<rfloor> - 1 else - bitlen (\<lceil>1 / x\<rceil> - 1))"

definition roundEven :: "rat \<Rightarrow> int" where
  "roundEven r =
     (if r - of_int \<lfloor>r\<rfloor> < 1 / 2 then \<lfloor>r\<rfloor>
      else if 1 / 2 < r - of_int \<lfloor>r\<rfloor> then \<lfloor>r\<rfloor> + 1
      else if even \<lfloor>r\<rfloor> then \<lfloor>r\<rfloor>
      else \<lfloor>r\<rfloor> + 1)"

text \<open>The exponent of the unit in the last place of a non-zero rational.\<close>

definition ulpExp :: "rat \<Rightarrow> int" where
  "ulpExp x = max (ilog2 \<bar>x\<bar> - 52) (- 1074)"

definition roundMag :: "rat \<Rightarrow> rat" where
  "roundMag x = of_int (roundEven (\<bar>x\<bar> / pow2 (ulpExp x))) * pow2 (ulpExp x)"

definition round64 :: "rat \<Rightarrow> f64" where
  "round64 x =
     (if x = 0 then Fin 0
      else if pow2 1024 \<le> roundMag x then (if 0 < x then PInf else NInf)
      else Fin (if 0 < x then roundMag x else - roundMag x))"

fun f64_add :: "f64 \<Rightarrow> f64 \<Rightarrow> f64" where
  "f64_add NaN _ = NaN"
| "f64_add _ NaN = NaN"
| "f64_add PInf NInf = NaN"
| "f64_add NInf PInf = NaN"
| "f64_add PInf _ = PInf"
| "f64_add _ PInf = PInf"
| "f64_add NInf _ = NInf"
| "f64_add _ NInf = NInf"
| "f64_add (Fin a) (Fin b) = round64 (a + b)"

fun f64_sub :: "f64 \<Rightarrow> f64 \<Rightarrow> f64" where
  "f64_sub NaN _ = NaN"
| "f64_sub _ NaN = NaN"
| "f64_sub PInf PInf = NaN"
| "f64_sub NInf NInf = NaN"
| "f64_sub PInf _ = PInf"
| "f64_sub _ NInf = PInf"
| "f64_sub NInf _ = NInf"
| "f64_sub _ PInf = NInf"
| "f64_sub (Fin a) (Fin b) = round64 (a - b)"

fun f64_mul :: "f64 \<Rightarrow> f64 \<Rightarrow> f64" where
  "f64_mul NaN _ = NaN"
| "f64_mul _ NaN = NaN"
| "f64_mul PInf PInf = PInf"
| "f64_mul PInf NInf = NInf"
| "f64_mul NInf PInf = NInf"
| "f64_mul NInf NInf = PInf"
| "f64_mul PInf (Fin b) = (if b = 0 then NaN else if 0 < b then PInf else NInf)"
| "f64_mul NInf (Fin b) = (if b = 0 then NaN else if 0 < b then NInf else PInf)"
| "f64_mul (Fin a) PInf = (if a = 0 then NaN else if 0 < a then PInf else NInf)"
| "f64_mul (Fin a) NInf = (if a = 0 then NaN else if 0 < a then NInf else PInf)"
| "f64_mul (Fin a) (Fin b) = round64 (a * b)"

text \<open>Division: a finite zero divisor is the positive zero.\<close>

fun f64_div :: "f64 \<Rightarrow> f64 \<Rightarrow> f64" where
  "f64_div NaN _ = NaN"
| "f64_div _ NaN = NaN"
| "f64_div PInf PInf = NaN"
| "f64_div PInf NInf = NaN"
| "f64_div NInf PInf = NaN"
| "f64_div NInf NInf = NaN"
| "f64_div PInf (Fin b) = (if b < 0 then NInf else PInf)"
| "f64_div NInf (Fin b) = (if b < 0 then PInf else NInf)"
| "f64_div (Fin a) PInf = Fin 0"
| "f64_div (Fin a) NInf = Fin 0"
| "f64_div (Fin a) (Fin b) =
     (if b = 0 then (if a = 0 then NaN else if 0 < a then PInf else NInf)
      else round64 (a / b))"

text \<open>The comparison \<^verbatim>\<open><=\<close> of Go on \<^verbatim>\<open>float64\<close>: false as soon as one side is NaN.\<close>

fun f64_le :: "f64 \<Rightarrow> f64 \<Rightarrow> bool" where
  "f64_le NaN _ = False"
| "f64_le _ NaN = False"
| "f64_le NInf _ = True"
| "f64_le _ PInf = True"
| "f64_le (Fin a) (Fin b) = (a \<le> b)"
| "f64_le _ _ = False"

definition f64_lt :: "f64 \<Rightarrow> f64 \<Rightarrow> bool" where
  "f64_lt x y = (f64_le x y \<and> x \<noteq> y)"

text \<open>The built-in \<^verbatim>\<open>min\<close> and \<^verbatim>\<open>max\<close> of Go: NaN as soon as one argument is NaN.\<close>

definition f64_min :: "f64 \<Rightarrow> f64 \<Rightarrow> f64" where
  "f64_min x y = (if x = NaN \<or> y = NaN then NaN else if f64_le x y then x else y)"

definition f64_max :: "f64 \<Rightarrow> f64 \<Rightarrow> f64" where
  "f64_max x y = (if x = NaN \<or> y = NaN then NaN else if f64_le x y then y else x)"

text \<open>The conversions \<^verbatim>\<open>float64(n)\<close> of a \<^verbatim>\<open>uint64\<close> and of a length.\<close>

definition float64 :: "u64 \<Rightarrow> f64" where
  "float64 n = round64 (of_nat (unat n))"

definition float64_of_len :: "nat \<Rightarrow> f64" where
  "float64_of_len n = round64 (of_nat n)"

subsection \<open>CPU counters\<close>

record CPUTime =
  idle :: u64
  total :: u64

text \<open>The loop of \<^verbatim>\<open>getCPUTime\<close> over \<^verbatim>\<open>fields[1:]\<close>: \<^verbatim>\<open>result.total += value\<close>.\<close>

fun totalOf :: "u64 \<Rightarrow> string list \<Rightarrow> error + u64" where
  "totalOf t [] = Inr t"
| "totalOf t (field # rest) =
     (case ParseUint field of
        Inl err \<Rightarrow> Inl err
      | Inr v \<Rightarrow> totalOf (t + v) rest)"

text \<open>
  The argument is what \<^verbatim>\<open>os.ReadFile("/proc/stat")\<close> returned. \<^verbatim>\<open>fields[4]\<close> panics
  when the first line has fewer than five fields.
\<close>

definition getCPUTime :: "error + string \<Rightarrow> CPUTime result" where
  "getCPUTime file =
     (case file of
        Inl err \<Rightarrow> Err err
      | Inr data \<Rightarrow>
          (let fs = Fields (hd (Split data (CHR 0x0A))) in
           if length fs \<le> 4 then Panic IndexOutOfRange
           else (case ParseUint (fs ! 4) of
                   Inl err \<Rightarrow> Err err
                 | Inr i \<Rightarrow>
                     (case totalOf 0 (tl fs) of
                        Inl err \<Rightarrow> Err err
                      | Inr t \<Rightarrow> Ok \<lparr>idle = i, total = t\<rparr>))))"

text \<open>The usage of two snapshots, as \<^verbatim>\<open>getCPUUsage\<close> computes it.\<close>

definition usageOf :: "CPUTime \<Rightarrow> CPUTime \<Rightarrow> f64" where
  "usageOf prv stats =
     (let diffIdle = float64 (idle stats - idle prv);
          diffTotal = float64 (total stats - total prv)
      in f64_div (f64_sub diffTotal diffIdle) diffTotal)"

text \<open>
  \<^verbatim>\<open>getCPUUsage(prev)\<close>: the usage and the new content of \<^verbatim>\<open>*prev\<close>, which is left
  as it was when the read fails.
\<close>

definition getCPUUsage :: "CPUTime \<Rightarrow> error + string \<Rightarrow> (f64 \<times> CPUTime) result" where
  "getCPUUsage prv file =
     (case getCPUTime file of
        Err err \<Rightarrow> Err err
      | Panic p \<Rightarrow> Panic p
      | Ok stats \<Rightarrow> Ok (usageOf prv stats, stats))"

subsection \<open>The sampler\<close>

record Stats =
  CpuPercent :: f64
  MemUsed :: u64
  MemTotal :: u64
  MemPercent :: f64
  GpuPercent :: f64

definition noStats :: Stats where
  "noStats = \<lparr>CpuPercent = Fin 0, MemUsed = 0, MemTotal = 0, MemPercent = Fin 0,
     GpuPercent = Fin 0\<rparr>"

text \<open>The variables of \<^verbatim>\<open>main\<close> that the ticker goroutine updates.\<close>

record Sampler =
  prev :: CPUTime
  totalTicks :: u64
  minCpu :: f64
  maxCpu :: f64
  sumCpu :: f64
  minRam :: u64
  maxRam :: u64
  sumRam :: u64
  minGpu :: f64
  maxGpu :: f64
  sumGpu :: f64

definition startSampler :: "CPUTime \<Rightarrow> Sampler" where
  "startSampler p =
     \<lparr>prev = p, totalTicks = 0,
      minCpu = Fin 100, maxCpu = Fin 0, sumCpu = Fin 0,
      minRam = - 1, maxRam = 0, sumRam = 0,
      minGpu = Fin 100, maxGpu = Fin 0, sumGpu = Fin 0\<rparr>"

text \<open>What one tick reads: the two files and the \<^verbatim>\<open>GpuUtil\<close> of every device.\<close>

record TickInput =
  statFile :: "error + string"
  meminfoFile :: "error + string"
  GPUS :: "string list"

text \<open>The lines that \<^verbatim>\<open>logPrintf\<close> and the messages on standard error print.\<close>

datatype logline =
    Unsupported string
  | Usage
  | CpuTimeFailed error
  | LogOpenFailed
  | Banner
  | StartingCommand "string list"
  | CollectingBaseline
  | SampleGpu f64 f64 u64 u64 f64
  | SampleNoGpu f64 f64 u64 u64
  | StdoutPipeFailed
  | StderrPipeFailed
  | StartFailed
  | StartedCommand
  | Rule
  | CpuSummary f64 f64 f64 f64
  | MemorySummary u64 u64 u64 u64
  | GpuSummary f64 f64 f64 f64
  | ExecutionTime
  | Finished
  | CommandFailed

fun hasGpuField :: "logline \<Rightarrow> bool" where
  "hasGpuField (SampleGpu c p u t g) = True"
| "hasGpuField (GpuSummary a b c d) = True"
| "hasGpuField _ = False"

definition logStats :: "bool \<Rightarrow> Stats \<Rightarrow> logline" where
  "logStats hasNvidiaSmi stats =
     (if hasNvidiaSmi
      then SampleGpu (CpuPercent stats) (MemPercent stats) (MemUsed stats) (MemTotal stats)
             (GpuPercent stats)
      else SampleNoGpu (CpuPercent stats) (MemPercent stats) (MemUsed stats)
             (MemTotal stats))"

text \<open>The CPU part of a tick: the panic of \<^verbatim>\<open>getCPUTime\<close> ends the program.\<close>

definition sampleCpu :: "error + string \<Rightarrow> Sampler \<times> Stats \<Rightarrow> panic + Sampler \<times> Stats" where
  "sampleCpu file = (\<lambda>(s, stats).
     (case getCPUUsage (prev s) file of
        Panic p \<Rightarrow> Inl p
      | Err err \<Rightarrow>
          Inr (s\<lparr>minCpu := f64_min (minCpu s) (CpuPercent stats),
                 maxCpu := f64_max (maxCpu s) (CpuPercent stats),
                 sumCpu := f64_add (sumCpu s) (CpuPercent stats)\<rparr>, stats)
      | Ok (usage, cur) \<Rightarrow>
          (let stats' = stats\<lparr>CpuPercent := f64_mul usage (Fin 100)\<rparr> in
           Inr (s\<lparr>prev := cur,
                   minCpu := f64_min (minCpu s) (CpuPercent stats'),
                   maxCpu := f64_max (maxCpu s) (CpuPercent stats'),
                   sumCpu := f64_add (sumCpu s) (CpuPercent stats')\<rparr>, stats'))))"

text \<open>The memory of one snapshot: \<^verbatim>\<open>used\<close> and \<^verbatim>\<open>percent\<close>.\<close>

definition memUsed :: "MemoryInfo \<Rightarrow> u64" where
  "memUsed memory = Total memory - Available memory"

definition memPercent :: "MemoryInfo \<Rightarrow> f64" where
  "memPercent memory =
     f64_mul (f64_div (float64 (memUsed memory)) (float64 (Total memory))) (Fin 100)"

definition sampleMem :: "error + string \<Rightarrow> Sampler \<times> Stats \<Rightarrow> Sampler \<times> Stats" where
  "sampleMem file = (\<lambda>(s, stats).
     (let stats' =
            (case getMemoryInfo file of
               Inl err \<Rightarrow> stats
             | Inr memory \<Rightarrow>
                 stats\<lparr>MemPercent := memPercent memory,
                       MemTotal := Total memory,
                       MemUsed := memUsed memory\<rparr>)
      in (s\<lparr>minRam := min (minRam s) (MemUsed stats'),
             maxRam := max (maxRam s) (MemUsed stats'),
             sumRam := sumRam s + MemUsed stats'\<rparr>, stats')))"

text \<open>
  The loop over the devices. \<^verbatim>\<open>strconv.ParseFloat\<close> is the first argument; a value
  that does not parse counts as 0.
\<close>

definition gpuUtil :: "(string \<Rightarrow> error + f64) \<Rightarrow> string \<Rightarrow> f64" where
  "gpuUtil ParseFloat GpuUtil =
     (case ParseFloat (hd (Split GpuUtil (CHR '' ''))) of
        Inl err \<Rightarrow> Fin 0
      | Inr util \<Rightarrow> util)"

fun gpuTotal :: "(string \<Rightarrow> error + f64) \<Rightarrow> f64 \<Rightarrow> string list \<Rightarrow> f64" where
  "gpuTotal ParseFloat t [] = t"
| "gpuTotal ParseFloat t (gpu # gpus) =
     gpuTotal ParseFloat (f64_add t (gpuUtil ParseFloat gpu)) gpus"

definition gpuPercent :: "(string \<Rightarrow> error + f64) \<Rightarrow> string list \<Rightarrow> f64" where
  "gpuPercent ParseFloat gpus =
     f64_div (gpuTotal ParseFloat (Fin 0) gpus) (float64_of_len (length gpus))"

definition sampleGpu ::
  "(string \<Rightarrow> error + f64) \<Rightarrow> string list \<Rightarrow> Sampler \<times> Stats \<Rightarrow> Sampler \<times> Stats" where
  "sampleGpu ParseFloat gpus = (\<lambda>(s, stats).
     (let stats' = stats\<lparr>GpuPercent := gpuPercent ParseFloat gpus\<rparr> in
      (s\<lparr>minGpu := f64_min (minGpu s) (GpuPercent stats'),
         maxGpu := f64_max (maxGpu s) (GpuPercent stats'),
         sumGpu := f64_add (sumGpu s) (GpuPercent stats')\<rparr>, stats')))"

text \<open>One tick of the ticker goroutine: the new variables and the sample it logs.\<close>

definition tick ::
  "(string \<Rightarrow> error + f64) \<Rightarrow> bool \<Rightarrow> TickInput \<Rightarrow> Sampler \<Rightarrow> panic + Sampler \<times> Stats" where
  "tick ParseFloat hasNvidiaSmi inp s =
     (case sampleCpu (statFile inp) (s\<lparr>totalTicks := totalTicks s + 1\<rparr>, noStats) of
        Inl p \<Rightarrow> Inl p
      | Inr c \<Rightarrow>
          Inr (if hasNvidiaSmi
               then sampleGpu ParseFloat (GPUS inp) (sampleMem (meminfoFile inp) c)
               else sampleMem (meminfoFile inp) c))"

text \<open>
  The ticks in the order they run: the lines logged, and the variables after the last
  tick or the panic that ended the program.
\<close>

fun runTicks ::
  "(string \<Rightarrow> error + f64) \<Rightarrow> bool \<Rightarrow> Sampler \<Rightarrow> TickInput list \<Rightarrow> logline list \<times> (panic + Sampler)"
  where
  "runTicks ParseFloat hasNvidiaSmi s [] = ([], Inr s)"
| "runTicks ParseFloat hasNvidiaSmi s (inp # inps) =
     (case tick ParseFloat hasNvidiaSmi inp s of
        Inl p \<Rightarrow> ([], Inl p)
      | Inr (s', stats) \<Rightarrow>
          (case runTicks ParseFloat hasNvidiaSmi s' inps of
             (ls, r) \<Rightarrow> (logStats hasNvidiaSmi stats # ls, r)))"

text \<open>The samples of the ticks, for the ticks that ran to their end.\<close>

fun samples ::
  "(string \<Rightarrow> error + f64) \<Rightarrow> bool \<Rightarrow> Sampler \<Rightarrow> TickInput list \<Rightarrow> Stats list" where
  "samples ParseFloat hasNvidiaSmi s [] = []"
| "samples ParseFloat hasNvidiaSmi s (inp # inps) =
     (case tick ParseFloat hasNvidiaSmi inp s of
        Inl p \<Rightarrow> []
      | Inr (s', stats) \<Rightarrow> stats # samples ParseFloat hasNvidiaSmi s' inps)"

subsection \<open>The run\<close>

datatype WaitStatus = Exited nat | Signaled

record Run =
  exitCode :: nat
  printed :: "logline list"

text \<open>
  The end of \<^verbatim>\<open>main\<close>, after \<^verbatim>\<open>cmd.Wait()\<close>: the report and the exit code. The
  average of the memory is a division of \<^verbatim>\<open>uint64\<close>, which panics on a zero divisor
  (exit code 2 of the Go run time) once the CPU line is printed.
\<close>

definition finish :: "bool \<Rightarrow> Sampler \<Rightarrow> WaitStatus \<Rightarrow> Run" where
  "finish hasNvidiaSmi s w =
     (let cpu = CpuSummary (minCpu s) (maxCpu s) (f64_sub (maxCpu s) (minCpu s))
                  (f64_div (sumCpu s) (float64 (totalTicks s)))
      in if totalTicks s = 0 then \<lparr>exitCode = 2, printed = [Rule, cpu]\<rparr>
         else
           \<lparr>exitCode = (if w = Exited 0 then 0 else 1),
            printed =
              [Rule, cpu,
               MemorySummary (minRam s) (maxRam s) (maxRam s - minRam s)
                 (sumRam s div totalTicks s)]
              @ (if hasNvidiaSmi
                 then [GpuSummary (minGpu s) (maxGpu s) (f64_sub (maxGpu s) (minGpu s))
                         (f64_div (sumGpu s) (float64 (totalTicks s)))]
                 else [])
              @ [ExecutionTime, Finished]
              @ (if w = Exited 0 then [] else [CommandFailed])\<rparr>)"

text \<open>
  What a run meets: the platform, the arguments, the first read of \<^verbatim>\<open>/proc/stat\<close>,
  whether nvidia-smi is there, whether the log file opens, the ticks during the
  baseline, whether the pipes and the child start, the ticks while the child runs, and
  how the child ends. The ticks are taken to have ended when the report is printed.
\<close>

record World =
  GOOS :: string
  Args :: "string list"
  firstStat :: "error + string"
  HasNvidiaSmi :: bool
  logOpens :: bool
  baselineTicks :: "TickInput list"
  stdoutPipe :: bool
  stderrPipe :: bool
  starts :: bool
  childTicks :: "TickInput list"
  waitStatus :: WaitStatus

definition main :: "(string \<Rightarrow> error + f64) \<Rightarrow> World \<Rightarrow> Run" where
  "main ParseFloat w =
     (if GOOS w \<noteq> ''linux'' then \<lparr>exitCode = 1, printed = [Unsupported (GOOS w)]\<rparr>
      else if length (Args w) < 2 \<or> Args w ! 1 = ''-h'' \<or> Args w ! 1 = ''--help''
        then \<lparr>exitCode = 1, printed = [Usage]\<rparr>
      else (case getCPUTime (firstStat w) of
              Err err \<Rightarrow> \<lparr>exitCode = 1, printed = [CpuTimeFailed err]\<rparr>
            | Panic p \<Rightarrow> \<lparr>exitCode = 2, printed = []\<rparr>
            | Ok p \<Rightarrow>
          if \<not> logOpens w then \<lparr>exitCode = 1, printed = [LogOpenFailed]\<rparr>
          else
            (let head = [Banner, StartingCommand (tl (Args w)), CollectingBaseline] in
             case runTicks ParseFloat (HasNvidiaSmi w) (startSampler p) (baselineTicks w) of
               (ls1, Inl pn) \<Rightarrow> \<lparr>exitCode = 2, printed = head @ ls1\<rparr>
             | (ls1, Inr s1) \<Rightarrow>
                 if \<not> stdoutPipe w
                   then \<lparr>exitCode = 1, printed = head @ ls1 @ [StdoutPipeFailed]\<rparr>
                 else if \<not> stderrPipe w
                   then \<lparr>exitCode = 1, printed = head @ ls1 @ [StderrPipeFailed]\<rparr>
                 else if \<not> starts w
                   then \<lparr>exitCode = 1, printed = head @ ls1 @ [StartFailed]\<rparr>
                 else
                   (case runTicks ParseFloat (HasNvidiaSmi w) s1 (childTicks w) of
                      (ls2, Inl pn) \<Rightarrow>
                        \<lparr>exitCode = 2, printed = head @ ls1 @ [StartedCommand] @ ls2\<rparr>
                    | (ls2, Inr s2) \<Rightarrow>
                        (let r = finish (HasNvidiaSmi w) s2 (waitStatus w) in
                         r\<lparr>printed := head @ ls1 @ [StartedCommand] @ ls2 @ printed r\<rparr>)))))"

subsection \<open>Notions used by the statements\<close>

text \<open>
  A line that makes \<^verbatim>\<open>getMemoryInfo\<close> return an error: it has two fields or more and
  the second is not a decimal \<^verbatim>\<open>uint64\<close>.
\<close>

definition badLine :: "string \<Rightarrow> bool" where
  "badLine l =
     (2 \<le> length (Fields l) \<and> (case ParseUint (Fields l ! 1) of Inl err \<Rightarrow> True | Inr v \<Rightarrow> False))"

text \<open>The values of the lines that carry a given label, in the order of the lines.\<close>

definition valuesOf :: "string \<Rightarrow> string list \<Rightarrow> u64 list" where
  "valuesOf key ls =
     concat (map (\<lambda>l. if 2 \<le> length (Fields l) \<and> Fields l ! 0 = key
                       then (case ParseUint (Fields l ! 1) of Inl err \<Rightarrow> [] | Inr v \<Rightarrow> [v])
                       else []) ls)"

text \<open>The bytes of a label: 1024 times its last value, or the default when no line has it.\<close>

definition bytesOf :: "u64 \<Rightarrow> string \<Rightarrow> string list \<Rightarrow> u64" where
  "bytesOf d key ls = (if valuesOf key ls = [] then d else last (valuesOf key ls) * 1024)"

text \<open>A tick whose read of \<^verbatim>\<open>/proc/stat\<close> does not panic.\<close>

definition statOk :: "TickInput \<Rightarrow> bool" where
  "statOk inp = (case getCPUTime (statFile inp) of Panic p \<Rightarrow> False | _ \<Rightarrow> True)"

fun isCpuSummary :: "logline \<Rightarrow> bool" where
  "isCpuSummary (CpuSummary a b c d) = True"
| "isCpuSummary _ = False"

fun isMemorySummary :: "logline \<Rightarrow> bool" where
  "isMemorySummary (MemorySummary a b c d) = True"
| "isMemorySummary _ = False"

text \<open>A first line of \<^verbatim>\<open>/proc/stat\<close> and a run on it, for the examples.\<close>

definition stat0 :: string where
  "stat0 = ''cpu  100 0 100 800 0 0 0 0 0 0''"

definition stat1 :: string where
  "stat1 = ''cpu  110 0 110 820 0 0 0 0 0 0''"

definition meminfo1 :: string where
  "meminfo1 = ''MemTotal: 1000 kB'' @ [CHR 0x0A] @ ''SwapFree: 5 kB'' @ [CHR 0x0A]
     @ ''MemAvailable: 250 kB'' @ [CHR 0x0A]"

definition tick1 :: "string list \<Rightarrow> TickInput" where
  "tick1 gpus = \<lparr>statFile = Inr stat1, meminfoFile = Inr meminfo1, GPUS = gpus\<rparr>"

definition world1 :: "bool \<Rightarrow> TickInput list \<Rightarrow> WaitStatus \<Rightarrow> World" where
  "world1 smi ticks w =
     \<lparr>GOOS = ''linux'', Args = [''go-profile'', ''sleep'', ''1''], firstStat = Inr stat0,
      HasNvidiaSmi = smi, logOpens = True, baselineTicks = ticks, stdoutPipe = True,
      stderrPipe = True, starts = True, childTicks = [], waitStatus = w\<rparr>"

text \<open>A \<^verbatim>\<open>ParseFloat\<close> for the examples: it knows \<open>37\<close> and nothing else.\<close>

definition parse37 :: "string \<Rightarrow> error + f64" where
  "parse37 s = (if s = ''37'' then Inr (Fin 37) else Inl ErrSyntax)"

section \<open>Properties\<close>

lemma Split_not_Nil: "Split s sep \<noteq> []"
  by (induction s) (auto split: list.splits)

subsection \<open>Runs without nvidia-smi\<close>

lemma runTicks_noGpu:
  "runTicks PF False s inps = (ls, r) \<Longrightarrow> l \<in> set ls \<Longrightarrow> \<not> hasGpuField l"
proof (induction inps arbitrary: s ls r)
  case Nil
  then show ?case by simp
next
  case (Cons inp inps)
  show ?case
  proof (cases "tick PF False inp s")
    case (Inl p)
    with Cons.prems show ?thesis by simp
  next
    case (Inr c)
    obtain s' stats where c: "c = (s', stats)" by (cases c)
    obtain ls' r' where rec: "runTicks PF False s' inps = (ls', r')"
      by (cases "runTicks PF False s' inps")
    from Cons.prems(1) Inr c rec have ls: "ls = logStats False stats # ls'" by simp
    from Cons.prems(2) ls consider "l = logStats False stats" | "l \<in> set ls'" by auto
    then show ?thesis
    proof cases
      case 1
      then show ?thesis by (simp add: logStats_def)
    next
      case 2
      with Cons.IH [OF rec] show ?thesis .
    qed
  qed
qed

lemma finish_noGpu: "l \<in> set (printed (finish False s w)) \<Longrightarrow> \<not> hasGpuField l"
  by (auto simp add: finish_def Let_def split: if_splits)

text \<open>
  C8. When nvidia-smi is absent for the run, no line that the run prints has a GPU
  field: neither a sample line nor the report. This holds for every run, whatever
  the ticks read and however the run ends.
\<close>

theorem no_gpu_field_without_nvidia_smi:
  assumes "\<not> HasNvidiaSmi w"
  shows "\<forall>l \<in> set (printed (main PF w)). \<not> hasGpuField l"
proof
  fix l
  assume l: "l \<in> set (printed (main PF w))"
  from assms have g: "HasNvidiaSmi w = False" by simp
  from l show "\<not> hasGpuField l"
    unfolding main_def Let_def g
    by (auto split: if_splits result.splits prod.splits sum.splits
          dest: runTicks_noGpu finish_noGpu)
qed

theorem no_gpu_field_without_nvidia_smi_witness:
  "\<not> HasNvidiaSmi (world1 False [tick1 []] (Exited 0)) \<and>
   list_all (\<lambda>l. \<not> hasGpuField l)
     (printed (main parse37 (world1 False [tick1 []] (Exited 0))))"
  using no_gpu_field_without_nvidia_smi [of "world1 False [tick1 []] (Exited 0)" parse37]
  by (simp add: world1_def list_all_iff)

subsection \<open>Powers of two and binades\<close>

lemma pow2_powi: "pow2 e = 2 powi e"
  by (simp add: pow2_def power_int_def power_inverse [symmetric] inverse_eq_divide power_one_over)

lemma pow2_pos [simp]: "0 < pow2 e"
  by (simp add: pow2_powi)

lemma pow2_nonneg [simp]: "0 \<le> pow2 e"
  by (simp add: pow2_powi)

lemma pow2_neq0 [simp]: "pow2 e \<noteq> 0"
  by (simp add: pow2_powi)

lemma pow2_add: "pow2 (a + b) = pow2 a * pow2 b"
  by (simp add: pow2_powi power_int_add)

lemma pow2_diff: "pow2 (a - b) = pow2 a / pow2 b"
  by (simp add: pow2_powi power_int_diff)

lemma pow2_strict_mono: "a < b \<Longrightarrow> pow2 a < pow2 b"
  by (simp add: pow2_powi power_int_strict_increasing)

lemma pow2_mono: "a \<le> b \<Longrightarrow> pow2 a \<le> pow2 b"
  by (simp add: pow2_powi power_int_increasing)

lemma pow2_less_iff [simp]: "pow2 a < pow2 b \<longleftrightarrow> a < b"
  using pow2_strict_mono [of a b] pow2_mono [of b a] by (cases "a < b") auto

lemma pow2_le_iff [simp]: "pow2 a \<le> pow2 b \<longleftrightarrow> a \<le> b"
  using pow2_less_iff [of b a] by (simp only: linorder_not_less [symmetric])

lemma pow2_0 [simp]: "pow2 0 = 1"
  by (simp add: pow2_def)

lemma pow2_nat: "0 \<le> e \<Longrightarrow> pow2 e = of_int (2 ^ nat e)"
  by (simp add: pow2_def)

lemma ilog2_bounds:
  assumes "0 < x"
  shows "pow2 (ilog2 x) \<le> x \<and> x < pow2 (ilog2 x + 1)"
proof (cases "1 \<le> x")
  case True
  define f where "f = \<lfloor>x\<rfloor>"
  from True have f: "0 < f" by (simp add: f_def)
  from bitlen_bounds [OF f] have b: "2 ^ nat (bitlen f - 1) \<le> f" "f < 2 ^ nat (bitlen f)"
    by simp_all
  from f have bl: "1 \<le> bitlen f" by (simp add: bitlen_alt_def)
  have e: "ilog2 x = bitlen f - 1" using True by (simp add: ilog2_def f_def)
  have "pow2 (bitlen f - 1) = of_int (2 ^ nat (bitlen f - 1))" using bl by (simp add: pow2_nat)
  also have "\<dots> \<le> of_int f" using b(1) by (simp only: of_int_le_iff)
  also have "\<dots> \<le> x" by (simp add: f_def)
  finally have lo: "pow2 (ilog2 x) \<le> x" by (simp add: e)
  have "x < of_int (f + 1)" unfolding f_def by linarith
  also have "\<dots> \<le> of_int (2 ^ nat (bitlen f))" using b(2) by (simp only: of_int_le_iff)
  also have "\<dots> = pow2 (bitlen f)" using bl by (simp add: pow2_nat)
  finally have "x < pow2 (ilog2 x + 1)" by (simp add: e)
  with lo show ?thesis by simp
next
  case False
  define y where "y = 1 / x"
  define c where "c = \<lceil>y\<rceil>"
  from False assms have y1: "1 < y" by (simp add: y_def)
  then have c: "0 < c - 1" unfolding c_def by linarith
  define k where "k = bitlen (c - 1)"
  from bitlen_bounds [OF c] have b: "2 ^ nat (k - 1) \<le> c - 1" "c - 1 < 2 ^ nat k"
    by (simp_all add: k_def)
  from c have k1: "1 \<le> k" by (simp add: bitlen_alt_def k_def)
  have e: "ilog2 x = - k" using False by (simp add: ilog2_def k_def c_def y_def)
  have "y \<le> of_int c" by (simp add: c_def)
  also have "\<dots> \<le> of_int (2 ^ nat k)" using b(2) by (simp only: of_int_le_iff)
  finally have "y \<le> 2 ^ nat k" by simp
  then have "1 / 2 ^ nat k \<le> x" using assms by (simp add: y_def field_simps)
  then have lo: "pow2 (ilog2 x) \<le> x" using k1 by (simp add: e pow2_def)
  have "(of_int (2 ^ nat (k - 1)) :: rat) \<le> of_int (c - 1)" using b(1) by (simp only: of_int_le_iff)
  also have "\<dots> < y" unfolding c_def by linarith
  finally have "2 ^ nat (k - 1) < y" by simp
  then have "x < 1 / 2 ^ nat (k - 1)" using assms by (simp add: y_def field_simps)
  moreover have "pow2 (- k + 1) = 1 / 2 ^ nat (k - 1)"
    using k1 by (cases "k = 1") (simp_all add: pow2_def)
  ultimately have "x < pow2 (ilog2 x + 1)" by (simp add: e)
  with lo show ?thesis by simp
qed

lemma ilog2_unique:
  assumes "pow2 e \<le> x" "x < pow2 (e + 1)"
  shows "ilog2 x = e"
proof -
  have x: "0 < x" using assms(1) pow2_pos [of e] by linarith
  from ilog2_bounds [OF x] have b: "pow2 (ilog2 x) \<le> x" "x < pow2 (ilog2 x + 1)" by simp_all
  have "pow2 e < pow2 (ilog2 x + 1)" using assms(1) b(2) by linarith
  then have 1: "e \<le> ilog2 x" by simp
  have "pow2 (ilog2 x) < pow2 (e + 1)" using assms(2) b(1) by linarith
  then have "ilog2 x \<le> e" by simp
  with 1 show ?thesis by simp
qed

lemma ilog2_mono:
  assumes "0 < x" "x \<le> y"
  shows "ilog2 x \<le> ilog2 y"
proof -
  have y: "0 < y" using assms by linarith
  have "pow2 (ilog2 x) \<le> x" using ilog2_bounds [OF assms(1)] by simp
  also have "x \<le> y" by fact
  also have "y < pow2 (ilog2 y + 1)" using ilog2_bounds [OF y] by simp
  finally show ?thesis by simp
qed

subsection \<open>Rounding to the nearest integer, ties to even\<close>

lemma roundEven_of_int [simp]: "roundEven (of_int n) = n"
  by (simp add: roundEven_def)

lemma roundEven_ge_floor: "\<lfloor>r\<rfloor> \<le> roundEven r"
  by (simp add: roundEven_def)

lemma roundEven_le_floor1: "roundEven r \<le> \<lfloor>r\<rfloor> + 1"
  by (simp add: roundEven_def)

lemma roundEven_mono:
  assumes "r \<le> s"
  shows "roundEven r \<le> roundEven s"
proof (cases "\<lfloor>r\<rfloor> = \<lfloor>s\<rfloor>")
  case True
  have "r - of_int \<lfloor>r\<rfloor> \<le> s - of_int \<lfloor>s\<rfloor>" using assms True by simp
  then show ?thesis unfolding roundEven_def True by auto
next
  case False
  then have "\<lfloor>r\<rfloor> < \<lfloor>s\<rfloor>" using floor_mono [OF assms] by linarith
  then have "roundEven r \<le> \<lfloor>s\<rfloor>" using roundEven_le_floor1 [of r] by linarith
  then show ?thesis using roundEven_ge_floor [of s] by linarith
qed

lemma roundEven_error: "\<bar>of_int (roundEven r) - r\<bar> \<le> 1 / 2"
proof -
  define d where "d = r - of_int \<lfloor>r\<rfloor>"
  have d: "0 \<le> d" "d < 1" unfolding d_def by linarith+
  have r: "r = of_int \<lfloor>r\<rfloor> + d" by (simp add: d_def)
  consider "d < 1 / 2" | "1 / 2 < d" | "d = 1 / 2" by linarith
  then show ?thesis
  proof cases
    case 1
    then have "roundEven r = \<lfloor>r\<rfloor>" by (simp add: roundEven_def d_def)
    then show ?thesis using 1 d r by linarith
  next
    case 2
    then have "roundEven r = \<lfloor>r\<rfloor> + 1" by (simp add: roundEven_def d_def)
    then have "of_int (roundEven r) - r = 1 - d" using r by simp
    then show ?thesis using 2 d by linarith
  next
    case 3
    then have "roundEven r = \<lfloor>r\<rfloor> \<or> roundEven r = \<lfloor>r\<rfloor> + 1"
      by (simp add: roundEven_def d_def)
    then have "of_int (roundEven r) - r = - d \<or> of_int (roundEven r) - r = 1 - d"
      using r by auto
    then show ?thesis using 3 by auto
  qed
qed

lemma roundEven_nonneg: "0 \<le> r \<Longrightarrow> 0 \<le> roundEven r"
  using roundEven_mono [of 0 r] roundEven_of_int [of 0] by simp

lemma roundEven_le_int: "r \<le> of_int k \<Longrightarrow> roundEven r \<le> k"
  using roundEven_mono [of r "of_int k"] by simp

lemma roundEven_ge_int: "of_int k \<le> r \<Longrightarrow> k \<le> roundEven r"
  using roundEven_mono [of "of_int k" r] by simp

lemma roundEven_small: "0 \<le> r \<Longrightarrow> r < 1 / 2 \<Longrightarrow> roundEven r = 0"
proof -
  assume a: "0 \<le> r" "r < 1 / 2"
  then have "\<lfloor>r\<rfloor> = 0" by linarith
  with a show ?thesis by (simp add: roundEven_def)
qed

subsection \<open>Rounding a magnitude to 53 bits\<close>

lemma ulpExp_minus [simp]: "ulpExp (- x) = ulpExp x"
  by (simp add: ulpExp_def)

lemma ulpExp_abs [simp]: "ulpExp \<bar>x\<bar> = ulpExp x"
  by (simp add: ulpExp_def)

lemma roundMag_minus [simp]: "roundMag (- x) = roundMag x"
  by (simp add: roundMag_def)

lemma roundMag_abs [simp]: "roundMag \<bar>x\<bar> = roundMag x"
  by (simp add: roundMag_def)

lemma ulpExp_ge: "- 1074 \<le> ulpExp x" "ilog2 \<bar>x\<bar> - 52 \<le> ulpExp x"
  by (simp_all add: ulpExp_def)

lemma roundMag_nonneg: "0 \<le> roundMag x"
  unfolding roundMag_def by (intro mult_nonneg_nonneg) (simp_all add: roundEven_nonneg)

lemma scaled_less:
  assumes "x \<noteq> 0"
  shows "\<bar>x\<bar> / pow2 q < pow2 (ilog2 \<bar>x\<bar> + 1 - q)"
proof -
  have "\<bar>x\<bar> < pow2 (ilog2 \<bar>x\<bar> + 1)" using ilog2_bounds [of "\<bar>x\<bar>"] assms by simp
  then have "\<bar>x\<bar> / pow2 q < pow2 (ilog2 \<bar>x\<bar> + 1) / pow2 q"
    by (simp add: divide_strict_right_mono)
  then show ?thesis by (simp add: pow2_diff)
qed

lemma scaled_ge:
  assumes "x \<noteq> 0"
  shows "pow2 (ilog2 \<bar>x\<bar> - q) \<le> \<bar>x\<bar> / pow2 q"
proof -
  have "pow2 (ilog2 \<bar>x\<bar>) \<le> \<bar>x\<bar>" using ilog2_bounds [of "\<bar>x\<bar>"] assms by simp
  then have "pow2 (ilog2 \<bar>x\<bar>) / pow2 q \<le> \<bar>x\<bar> / pow2 q"
    by (simp add: divide_right_mono)
  then show ?thesis by (simp add: pow2_diff)
qed

lemma significand_le:
  assumes "x \<noteq> 0"
  shows "roundEven (\<bar>x\<bar> / pow2 (ulpExp x)) \<le> 2 ^ 53"
proof -
  have "\<bar>x\<bar> / pow2 (ulpExp x) < pow2 (ilog2 \<bar>x\<bar> + 1 - ulpExp x)" by (rule scaled_less [OF assms])
  also have "\<dots> \<le> pow2 53" using ulpExp_ge(2) [of x] by simp
  also have "\<dots> = of_int (2 ^ 53)" by (simp add: pow2_def)
  finally show ?thesis by (intro roundEven_le_int) simp
qed

lemma roundMag_upper:
  assumes "x \<noteq> 0"
  shows "roundMag x \<le> pow2 (ilog2 \<bar>x\<bar> + 1)"
proof (cases "ulpExp x \<le> ilog2 \<bar>x\<bar> + 1")
  case True
  define d where "d = ilog2 \<bar>x\<bar> + 1 - ulpExp x"
  have d: "0 \<le> d" using True by (simp add: d_def)
  have "\<bar>x\<bar> / pow2 (ulpExp x) < pow2 d" unfolding d_def by (rule scaled_less [OF assms])
  then have "\<bar>x\<bar> / pow2 (ulpExp x) \<le> of_int (2 ^ nat d)" using d by (simp add: pow2_nat)
  then have "roundEven (\<bar>x\<bar> / pow2 (ulpExp x)) \<le> 2 ^ nat d" by (rule roundEven_le_int)
  then have "(of_int (roundEven (\<bar>x\<bar> / pow2 (ulpExp x))) :: rat) \<le> of_int (2 ^ nat d)"
    by (simp only: of_int_le_iff)
  then have "roundMag x \<le> of_int (2 ^ nat d) * pow2 (ulpExp x)"
    unfolding roundMag_def by (intro mult_right_mono) simp_all
  also have "of_int (2 ^ nat d) * pow2 (ulpExp x) = pow2 d * pow2 (ulpExp x)"
    using d by (simp add: pow2_nat)
  also have "\<dots> = pow2 (ilog2 \<bar>x\<bar> + 1)" by (simp add: pow2_add [symmetric] d_def)
  finally show ?thesis .
next
  case False
  have "\<bar>x\<bar> / pow2 (ulpExp x) < pow2 (ilog2 \<bar>x\<bar> + 1 - ulpExp x)" by (rule scaled_less [OF assms])
  also have "\<dots> \<le> pow2 (- 1)" using False by simp
  also have "\<dots> = 1 / 2" by (simp add: pow2_def)
  finally have "roundEven (\<bar>x\<bar> / pow2 (ulpExp x)) = 0" by (intro roundEven_small) simp_all
  then show ?thesis by (simp add: roundMag_def)
qed

lemma roundMag_lower:
  assumes "x \<noteq> 0" "- 1074 \<le> ilog2 \<bar>x\<bar>"
  shows "pow2 (ilog2 \<bar>x\<bar>) \<le> roundMag x"
proof -
  define d where "d = ilog2 \<bar>x\<bar> - ulpExp x"
  have d: "0 \<le> d" using assms(2) by (simp add: d_def ulpExp_def)
  have "pow2 d \<le> \<bar>x\<bar> / pow2 (ulpExp x)" unfolding d_def by (rule scaled_ge [OF assms(1)])
  then have "of_int (2 ^ nat d) \<le> \<bar>x\<bar> / pow2 (ulpExp x)" using d by (simp add: pow2_nat)
  then have "2 ^ nat d \<le> roundEven (\<bar>x\<bar> / pow2 (ulpExp x))" by (rule roundEven_ge_int)
  then have "(of_int (2 ^ nat d) :: rat) \<le> of_int (roundEven (\<bar>x\<bar> / pow2 (ulpExp x)))"
    by (simp only: of_int_le_iff)
  then have "of_int (2 ^ nat d) * pow2 (ulpExp x) \<le> roundMag x"
    unfolding roundMag_def by (intro mult_right_mono) simp_all
  moreover have "of_int (2 ^ nat d) * pow2 (ulpExp x) = pow2 d * pow2 (ulpExp x)"
    using d by (simp add: pow2_nat)
  moreover have "pow2 d * pow2 (ulpExp x) = pow2 (ilog2 \<bar>x\<bar>)"
    by (simp add: pow2_add [symmetric] d_def)
  ultimately show ?thesis by simp
qed

lemma roundMag_mono:
  assumes "0 < x" "x \<le> y"
  shows "roundMag x \<le> roundMag y"
proof -
  have y: "0 < y" using assms by linarith
  have e: "ilog2 \<bar>x\<bar> \<le> ilog2 \<bar>y\<bar>" using ilog2_mono [of x y] assms y by simp
  then have q: "ulpExp x \<le> ulpExp y" by (simp add: ulpExp_def)
  show ?thesis
  proof (cases "ulpExp x = ulpExp y")
    case True
    have "\<bar>x\<bar> / pow2 (ulpExp y) \<le> \<bar>y\<bar> / pow2 (ulpExp y)"
      using assms y by (simp add: divide_right_mono)
    then have "roundEven (\<bar>x\<bar> / pow2 (ulpExp y)) \<le> roundEven (\<bar>y\<bar> / pow2 (ulpExp y))"
      by (rule roundEven_mono)
    then have "(of_int (roundEven (\<bar>x\<bar> / pow2 (ulpExp y))) :: rat)
        \<le> of_int (roundEven (\<bar>y\<bar> / pow2 (ulpExp y)))"
      by (simp only: of_int_le_iff)
    then show ?thesis unfolding roundMag_def True by (intro mult_right_mono) simp_all
  next
    case False
    with q have lt: "ulpExp x < ulpExp y" by simp
    then have ey: "ulpExp y = ilog2 \<bar>y\<bar> - 52" "- 1074 < ilog2 \<bar>y\<bar> - 52"
      using ulpExp_ge(1) [of x] by (auto simp: ulpExp_def max_def split: if_splits)
    from lt ey have "ilog2 (abs x) < ilog2 (abs y)" using ulpExp_ge(2) [of x] by linarith
    then have e1: "ilog2 \<bar>x\<bar> + 1 \<le> ilog2 \<bar>y\<bar>" by simp
    have "roundMag x \<le> pow2 (ilog2 \<bar>x\<bar> + 1)" using assms by (intro roundMag_upper) simp
    also have "\<dots> \<le> pow2 (ilog2 \<bar>y\<bar>)" using e1 by simp
    also have "\<dots> \<le> roundMag y" using y ey by (intro roundMag_lower) simp_all
    finally show ?thesis .
  qed
qed

lemma roundMag_error: "\<bar>roundMag x - \<bar>x\<bar>\<bar> \<le> pow2 (ulpExp x) / 2"
proof -
  define q where "q = pow2 (ulpExp x)"
  have q: "0 < q" by (simp add: q_def)
  define m where "m = \<bar>x\<bar> / q"
  have "roundMag x - \<bar>x\<bar> = (of_int (roundEven m) - m) * q"
    using q by (simp add: roundMag_def m_def q_def algebra_simps)
  then have "\<bar>roundMag x - \<bar>x\<bar>\<bar> = \<bar>of_int (roundEven m) - m\<bar> * q"
    using q by (simp add: abs_mult)
  also have "\<dots> \<le> (1 / 2) * q" using roundEven_error [of m] q by (intro mult_right_mono) simp_all
  finally show ?thesis by (simp add: q_def)
qed

subsection \<open>Rounding to binary64\<close>

lemma ilog2_less:
  assumes "0 < a" "a < pow2 k"
  shows "ilog2 a < k"
proof -
  have "pow2 (ilog2 a) \<le> a" using ilog2_bounds [OF assms(1)] by simp
  with assms(2) have "pow2 (ilog2 a) < pow2 k" by linarith
  then show ?thesis by simp
qed

lemma roundMag_exact:
  assumes n: "n \<noteq> 0" "\<bar>n\<bar> < 2 ^ 53" and q: "- 1074 \<le> q"
  shows "roundMag (of_int n * pow2 q) = of_int \<bar>n\<bar> * pow2 q"
proof -
  define y where "y = of_int n * pow2 q"
  have a: "\<bar>y\<bar> = of_int \<bar>n\<bar> * pow2 q" by (simp add: y_def abs_mult)
  have pos: "0 < \<bar>y\<bar>" using n(1) by (simp add: y_def)
  have "(of_int \<bar>n\<bar> :: rat) < of_int (2 ^ 53)" using n(2) by (simp only: of_int_less_iff)
  then have "\<bar>y\<bar> < of_int (2 ^ 53) * pow2 q" unfolding a by (intro mult_strict_right_mono) simp_all
  also have "of_int (2 ^ 53) * pow2 q = pow2 (53 + q)" by (simp add: pow2_add) (simp add: pow2_def)
  finally have "ilog2 \<bar>y\<bar> < 53 + q" by (intro ilog2_less pos)
  then have u: "ulpExp y \<le> q" using q by (simp add: ulpExp_def)
  define d where "d = q - ulpExp y"
  have d: "0 \<le> d" using u by (simp add: d_def)
  have qd: "pow2 q = pow2 d * pow2 (ulpExp y)" by (simp add: pow2_add [symmetric] d_def)
  have "\<bar>y\<bar> / pow2 (ulpExp y) = of_int \<bar>n\<bar> * pow2 d" by (simp add: a qd)
  also have "\<dots> = of_int (\<bar>n\<bar> * 2 ^ nat d)" using d by (simp add: pow2_nat)
  finally have "roundEven (\<bar>y\<bar> / pow2 (ulpExp y)) = \<bar>n\<bar> * 2 ^ nat d" by (simp only: roundEven_of_int)
  then have "roundMag y = of_int (\<bar>n\<bar> * 2 ^ nat d) * pow2 (ulpExp y)" by (simp add: roundMag_def)
  also have "\<dots> = of_int \<bar>n\<bar> * (pow2 d * pow2 (ulpExp y))" using d by (simp add: pow2_nat)
  also have "\<dots> = of_int \<bar>n\<bar> * pow2 q" by (simp only: qd)
  finally show ?thesis by (simp add: y_def)
qed

lemma round64_exact_lt:
  assumes "\<bar>n\<bar> < 2 ^ 53" "- 1074 \<le> q" "of_int \<bar>n\<bar> * pow2 q < pow2 1024"
  shows "round64 (of_int n * pow2 q) = Fin (of_int n * pow2 q)"
proof (cases "n = 0")
  case True
  then show ?thesis by (simp add: round64_def)
next
  case False
  have rm: "roundMag (of_int n * pow2 q) = of_int \<bar>n\<bar> * pow2 q"
    using False assms(1,2) by (rule roundMag_exact)
  have nz: "of_int n * pow2 q \<noteq> 0" using False by simp
  have sg: "0 < of_int n * pow2 q \<longleftrightarrow> 0 < n"
    using pow2_pos [of q] by (simp add: zero_less_mult_iff not_less [of "pow2 q" 0] del: pow2_pos)
  show ?thesis
    unfolding round64_def rm using nz assms(3) sg by (auto simp: abs_if)
qed

lemma round64_exact:
  assumes "\<bar>n\<bar> \<le> 2 ^ 53" "- 1074 \<le> q" "of_int \<bar>n\<bar> * pow2 q < pow2 1024"
  shows "round64 (of_int n * pow2 q) = Fin (of_int n * pow2 q)"
proof (cases "\<bar>n\<bar> < 2 ^ 53")
  case True
  then show ?thesis using assms(2,3) by (rule round64_exact_lt)
next
  case False
  with assms(1) have n: "\<bar>n\<bar> = 2 ^ 53" by simp
  define m :: int where "m = (if 0 < n then 2 ^ 52 else - (2 ^ 52))"
  have nm: "n = m * 2" using n by (auto simp: m_def abs_if split: if_splits)
  have p: "pow2 (q + 1) = 2 * pow2 q" by (simp add: pow2_add) (simp add: pow2_def)
  have eq: "of_int n * pow2 q = of_int m * pow2 (q + 1)" by (simp add: nm p)
  have am: "\<bar>m\<bar> < 2 ^ 53" by (simp add: m_def)
  have "of_int \<bar>m\<bar> * pow2 (q + 1) = of_int \<bar>n\<bar> * pow2 q" by (simp add: nm p abs_mult)
  with assms(3) have "of_int \<bar>m\<bar> * pow2 (q + 1) < pow2 1024" by simp
  with am have "round64 (of_int m * pow2 (q + 1)) = Fin (of_int m * pow2 (q + 1))"
    using assms(2) by (intro round64_exact_lt) simp_all
  then show ?thesis by (simp only: eq)
qed

lemma round64_of_int:
  assumes "\<bar>n\<bar> \<le> 2 ^ 53"
  shows "round64 (of_int n) = Fin (of_int n)"
proof -
  have "(of_int \<bar>n\<bar> :: rat) \<le> of_int (2 ^ 53)" using assms by (simp only: of_int_le_iff)
  also have "\<dots> = pow2 53" by (simp add: pow2_def)
  also have "\<dots> < pow2 1024" by simp
  finally have "of_int \<bar>n\<bar> * pow2 0 < pow2 1024" by simp
  with assms have "round64 (of_int n * pow2 0) = Fin (of_int n * pow2 0)"
    by (intro round64_exact) simp_all
  then show ?thesis by simp
qed

lemma round64_not_NaN [simp]: "round64 x \<noteq> NaN"
  by (simp add: round64_def)

lemma round64_0 [simp]: "round64 0 = Fin 0"
  by (simp add: round64_def)

lemma round64_representable:
  assumes "round64 x = Fin y"
  shows "\<exists>n q. y = of_int n * pow2 q \<and> \<bar>n\<bar> \<le> 2 ^ 53 \<and> - 1074 \<le> q
           \<and> of_int \<bar>n\<bar> * pow2 q < pow2 1024"
proof (cases "x = 0")
  case True
  with assms have "y = of_int 0 * pow2 0" by simp
  then show ?thesis by (intro exI [of _ 0] exI [of _ "0::int"]) simp
next
  case False
  define n where "n = roundEven (\<bar>x\<bar> / pow2 (ulpExp x))"
  have n0: "0 \<le> n" unfolding n_def by (intro roundEven_nonneg) simp
  have n53: "n \<le> 2 ^ 53" unfolding n_def by (rule significand_le [OF False])
  have rm: "roundMag x = of_int n * pow2 (ulpExp x)" by (simp add: roundMag_def n_def)
  from assms False have fin: "roundMag x < pow2 1024"
    and y: "y = (if 0 < x then roundMag x else - roundMag x)"
    by (auto simp: round64_def split: if_splits)
  define m where "m = (if 0 < x then n else - n)"
  have "y = of_int m * pow2 (ulpExp x)" by (simp add: y rm m_def)
  moreover have "\<bar>m\<bar> \<le> 2 ^ 53" using n0 n53 by (simp add: m_def)
  moreover have "of_int \<bar>m\<bar> * pow2 (ulpExp x) < pow2 1024" using fin n0 by (simp add: rm m_def)
  ultimately show ?thesis using ulpExp_ge(1) [of x] by blast
qed

lemma round64_idem: "round64 x = Fin y \<Longrightarrow> round64 y = Fin y"
  using round64_representable [of x y] round64_exact by blast

lemma round64_mono:
  assumes "x \<le> y"
  shows "f64_le (round64 x) (round64 y)"
proof -
  consider "0 < x" | "x = 0" | "x < 0" "y < 0" | "x < 0" "0 \<le> y" by linarith
  then show ?thesis
  proof cases
    case 1
    then have "roundMag x \<le> roundMag y" using assms by (rule roundMag_mono)
    then show ?thesis using 1 assms by (auto simp: round64_def)
  next
    case 2
    then show ?thesis using assms roundMag_nonneg [of y] by (auto simp: round64_def)
  next
    case 3
    then have "roundMag (- y) \<le> roundMag (- x)" using assms by (intro roundMag_mono) simp_all
    then show ?thesis using 3 by (auto simp: round64_def)
  next
    case 4
    then show ?thesis using roundMag_nonneg [of y] roundMag_nonneg [of x]
      by (auto simp: round64_def)
  qed
qed

subsection \<open>Values that are exact\<close>

lemma round64_numeral [simp]:
  "numeral k \<le> (2::int) ^ 53 \<Longrightarrow> round64 (numeral k) = Fin (numeral k)"
  using round64_of_int [of "numeral k"] by simp

lemma round64_neg_numeral [simp]:
  "numeral k \<le> (2::int) ^ 53 \<Longrightarrow> round64 (- numeral k) = Fin (- numeral k)"
  using round64_of_int [of "- numeral k"] by simp

lemma round64_1 [simp]: "round64 1 = Fin 1"
  using round64_of_int [of 1] by simp

lemma float64_0 [simp]: "float64 0 = Fin 0"
  by (simp add: float64_def)

lemma round64_dyadic:
  assumes "\<bar>n\<bar> \<le> 2 ^ 53" "k \<le> 1074"
  shows "round64 (of_int n / 2 ^ k) = Fin (of_int n / 2 ^ k)"
proof -
  have p: "pow2 (- int k) = 1 / 2 ^ k" by (simp add: pow2_def)
  have "(of_int \<bar>n\<bar> :: rat) \<le> of_int (2 ^ 53)" using assms(1) by (simp only: of_int_le_iff)
  also have "\<dots> = pow2 53" by (simp add: pow2_def)
  finally have "of_int \<bar>n\<bar> * pow2 (- int k) \<le> pow2 53 * pow2 (- int k)"
    by (intro mult_right_mono) simp_all
  also have "\<dots> = pow2 (53 - int k)" by (simp add: pow2_add [symmetric])
  also have "\<dots> < pow2 1024" by simp
  finally have "round64 (of_int n * pow2 (- int k)) = Fin (of_int n * pow2 (- int k))"
    using assms by (intro round64_exact) simp_all
  then show ?thesis by (simp add: p)
qed

lemma round64_half [simp]: "round64 (1 / 2) = Fin (1 / 2)"
  using round64_dyadic [of 1 1] by simp

lemma getCPUTime_stat0: "getCPUTime (Inr stat0) = Ok \<lparr>idle = 800, total = 1000\<rparr>"
  by (simp add: getCPUTime_def stat0_def Fields_def ParseUint_def isDigit_def maxUint64_def)

lemma getCPUTime_stat1: "getCPUTime (Inr stat1) = Ok \<lparr>idle = 820, total = 1040\<rparr>"
  by (simp add: getCPUTime_def stat1_def Fields_def ParseUint_def isDigit_def maxUint64_def)

lemma getMemoryInfo_meminfo1:
  "getMemoryInfo (Inr meminfo1) =
     Inr \<lparr>Total = 1024000, Free = 0, Available = 256000, Buffers = 0, Cached = 0\<rparr>"
  by (simp add: getMemoryInfo_def meminfo1_def Fields_def ParseUint_def isDigit_def
        maxUint64_def switchKey_def noMemoryInfo_def)

end
